theory Spec2Isabelle
  imports Complex_Main
begin

section \<open>Manifest items (manifest\_loader.py)\<close>

text \<open>
  A \<open>Clip\<close> is a dataclass of manifest metadata. The fields kept here are the ones read
  by the selector, the sampler and the scheduler; \<open>file_path\<close>, the pixel sizes, the
  camera and audio descriptions, the clean-cut flags and \<open>raw_data\<close> are read by none
  of the functions below.
\<close>

record clip =
  filename :: string
  duration :: real
  description :: string
  subjects :: "string list"
  setting :: string
  mood :: string
  dominant_colors :: "string list"
  motion_intensity :: string
  has_speech :: bool
  speech_transcript :: "string option"
  suggested_tags :: "string list"

text \<open>
  \<open>clips_by_filename = {c.filename: c for c in self.clips}\<close>: a later clip with the same
  filename replaces an earlier one, so the lookup reads the reversed association list.
\<close>

definition get_clip :: "clip list \<Rightarrow> string \<Rightarrow> clip option" where
  "get_clip clips fn = map_of (rev (map (\<lambda>c. (filename c, c)) clips)) fn"

section \<open>Narrative state (selector.py, class NarrativeState)\<close>

text \<open>Python's \<open>xs[-n:]\<close> for a positive \<open>n\<close>: the last \<open>n\<close> elements, all of them when
  the list is shorter. \<open>xs[:n]\<close> is \<open>take n xs\<close>.\<close>

definition py_last :: "nat \<Rightarrow> 'a list \<Rightarrow> 'a list" where
  "py_last n xs = drop (length xs - n) xs"

record played_entry =
  played_filename :: string
  played_description :: string
  played_mood :: string
  played_at :: string

record feedback_entry =
  feedback_text :: string
  feedback_at :: string

record narrative_state =
  direction :: string
  coherence_level :: real
  recently_played :: "played_entry list"
  current_queue :: "string list"
  feedback_history :: "feedback_entry list"
  mood_trajectory :: "string list"

definition NarrativeState :: narrative_state where
  "NarrativeState = \<lparr> direction = ''open exploration'', coherence_level = 3 / 10,
     recently_played = [], current_queue = [], feedback_history = [],
     mood_trajectory = [] \<rparr>"

text \<open>The entry \<open>add_played\<close> appends; \<open>now\<close> is the value of
  \<open>datetime.now().isoformat()\<close> at the call.\<close>

definition played_entry_of :: "clip \<Rightarrow> string \<Rightarrow> played_entry" where
  "played_entry_of c now = \<lparr> played_filename = filename c,
     played_description = take 150 (description c),
     played_mood = mood c, played_at = now \<rparr>"

definition add_played :: "clip \<Rightarrow> string \<Rightarrow> narrative_state \<Rightarrow> narrative_state" where
  "add_played c now s =
     s \<lparr> recently_played := py_last 10 (recently_played s @ [played_entry_of c now]),
         mood_trajectory := py_last 15 (mood_trajectory s @ [mood c]) \<rparr>"

definition add_feedback :: "string \<Rightarrow> string \<Rightarrow> narrative_state \<Rightarrow> narrative_state" where
  "add_feedback feedback now s =
     s \<lparr> feedback_history :=
           py_last 10 (feedback_history s @ [\<lparr> feedback_text = feedback, feedback_at = now \<rparr>]) \<rparr>"

definition get_recent_feedback :: "nat \<Rightarrow> narrative_state \<Rightarrow> string list" where
  "get_recent_feedback n s = map feedback_text (py_last n (feedback_history s))"

record state_context =
  ctx_direction :: string
  ctx_coherence_level :: real
  ctx_recently_played :: "played_entry list"
  ctx_recent_feedback :: "string list"
  ctx_mood_trajectory :: "string list"
  queued_count :: nat

definition to_context :: "narrative_state \<Rightarrow> state_context" where
  "to_context s = \<lparr> ctx_direction = direction s,
     ctx_coherence_level = coherence_level s,
     ctx_recently_played = py_last 5 (recently_played s),
     ctx_recent_feedback = get_recent_feedback 5 s,
     ctx_mood_trajectory = py_last 5 (mood_trajectory s),
     queued_count = length (current_queue s) \<rparr>"

subsection \<open>Sequences of recording calls\<close>

datatype state_call = AddPlayed clip string | AddFeedback string string

fun do_call :: "state_call \<Rightarrow> narrative_state \<Rightarrow> narrative_state" where
  "do_call (AddPlayed c now) s = add_played c now s"
| "do_call (AddFeedback t now) s = add_feedback t now s"

fun do_calls :: "state_call list \<Rightarrow> narrative_state \<Rightarrow> narrative_state" where
  "do_calls [] s = s"
| "do_calls (c # cs) s = do_calls cs (do_call c s)"

text \<open>What a sequence of calls recorded, in call order, with nothing dropped.\<close>

fun all_played :: "state_call list \<Rightarrow> played_entry list" where
  "all_played [] = []"
| "all_played (AddPlayed c now # cs) = played_entry_of c now # all_played cs"
| "all_played (AddFeedback t now # cs) = all_played cs"

fun all_moods :: "state_call list \<Rightarrow> string list" where
  "all_moods [] = []"
| "all_moods (AddPlayed c now # cs) = mood c # all_moods cs"
| "all_moods (AddFeedback t now # cs) = all_moods cs"

fun all_feedback :: "state_call list \<Rightarrow> feedback_entry list" where
  "all_feedback [] = []"
| "all_feedback (AddPlayed c now # cs) = all_feedback cs"
| "all_feedback (AddFeedback t now # cs) =
     \<lparr> feedback_text = t, feedback_at = now \<rparr> # all_feedback cs"

section \<open>Playback engine client (playback.py)\<close>

subsection \<open>Values decoded from the engine's JSON replies\<close>

text \<open>
  A property value is whatever \<open>json.loads\<close> produced: \<open>None\<close>, a bool, a number
  (Python's \<open>int\<close> and \<open>float\<close>, both read here as a real number), a string, a
  list or an object. \<open>truthy\<close> is Python's truth value of such a value, \<open>py_or x d\<close>
  is \<open>x or d\<close>.
\<close>

datatype pyval =
    PNone
  | PBool bool
  | PNum real
  | PStr string
  | PList "pyval list"
  | PDict "(string \<times> pyval) list"

fun truthy :: "pyval \<Rightarrow> bool" where
  "truthy PNone = False"
| "truthy (PBool b) = b"
| "truthy (PNum r) = (r \<noteq> 0)"
| "truthy (PStr s) = (s \<noteq> [])"
| "truthy (PList xs) = (xs \<noteq> [])"
| "truthy (PDict kvs) = (kvs \<noteq> [])"

definition py_or :: "pyval \<Rightarrow> pyval \<Rightarrow> pyval" where
  "py_or x d = (if truthy x then x else d)"

datatype py_error = TypeError | UnicodeDecodeError | KeyError | JSONDecodeError | APIError

text \<open>Arithmetic and comparison read a bool as 0 or 1 and raise \<open>TypeError\<close> on
  \<open>None\<close>, strings, lists and objects; \<open>len\<close> raises it on \<open>None\<close>, bools and
  numbers.\<close>

fun py_num :: "pyval \<Rightarrow> py_error + real" where
  "py_num (PBool b) = Inr (if b then 1 else 0)"
| "py_num (PNum r) = Inr r"
| "py_num v = Inl TypeError"

fun py_len :: "pyval \<Rightarrow> py_error + nat" where
  "py_len (PStr s) = Inr (length s)"
| "py_len (PList xs) = Inr (length xs)"
| "py_len (PDict kvs) = Inr (length kvs)"
| "py_len v = Inl TypeError"

subsection \<open>One command over the socket: \<open>_send_command\<close>\<close>

text \<open>
  What the socket does during one call. \<open>sock_recv i\<close> is the outcome of the
  \<open>i\<close>-th \<open>recv(4096)\<close> of the call: the bytes read (none when the peer has closed
  the connection), or a \<open>socket.error\<close>, which \<open>socket.timeout\<close> after 2 seconds
  without data is. \<open>decoded\<close> is the outcome of
  \<open>json.loads(response.decode().strip())\<close>; a reply is a JSON object.
\<close>

datatype recv_result = Chunk string | SocketError

type_synonym reply = "(string \<times> pyval) list"

datatype decoded = Decoded reply | BadJSON | BadUnicode

record socket_env =
  sock_connect_ok :: bool
  sock_send_ok :: bool
  sock_recv :: "nat \<Rightarrow> recv_result"
  sock_loads :: "string \<Rightarrow> decoded"

text \<open>
  The read loop \<open>while True: chunk = recv(4096); response += chunk; if b"\n" in
  response: break\<close>. It has no bound of its own, so it is a partial function:
  \<open>None\<close> is a loop that never ends, \<open>Some None\<close> a \<open>socket.error\<close> raised by
  \<open>recv\<close>, \<open>Some (Some r)\<close> the response read.
\<close>

partial_function (option) recv_loop ::
  "(nat \<Rightarrow> recv_result) \<Rightarrow> nat \<Rightarrow> string \<Rightarrow> string option option" where
  "recv_loop rcv i response =
     (case rcv i of
        SocketError \<Rightarrow> Some None
      | Chunk chunk \<Rightarrow>
          if CHR 0x0A \<in> set (response @ chunk) then Some (Some (response @ chunk))
          else recv_loop rcv (Suc i) (response @ chunk))"

text \<open>
  \<open>send_command env sock\<close>: \<open>sock\<close> says whether \<open>self._socket\<close> is set. The
  result is \<open>None\<close> when the call never returns; otherwise the value returned
  (\<open>Inr None\<close> is Python's \<open>None\<close>, "no response") or the exception that escapes,
  and whether \<open>self._socket\<close> is set afterwards. Only \<open>socket.error\<close> and
  \<open>json.JSONDecodeError\<close> are caught.
\<close>

definition send_command ::
  "socket_env \<Rightarrow> bool \<Rightarrow> ((py_error + reply option) \<times> bool) option" where
  "send_command env sock =
     (if \<not> sock \<and> \<not> sock_connect_ok env then Some (Inr None, False)
      else if \<not> sock_send_ok env then Some (Inr None, False)
      else
        (case recv_loop (sock_recv env) 0 [] of
           None \<Rightarrow> None
         | Some None \<Rightarrow> Some (Inr None, False)
         | Some (Some response) \<Rightarrow>
             (case sock_loads env response of
                Decoded r \<Rightarrow> Some (Inr (Some r), True)
              | BadJSON \<Rightarrow> Some (Inr None, False)
              | BadUnicode \<Rightarrow> Some (Inl UnicodeDecodeError, True))))"

text \<open>A peer that accepted the connection and the command and then closed: every
  \<open>recv\<close> returns \<open>b""\<close> at once.\<close>

definition closed_peer :: "(string \<Rightarrow> decoded) \<Rightarrow> socket_env" where
  "closed_peer loads = \<lparr> sock_connect_ok = True, sock_send_ok = True,
     sock_recv = (\<lambda>i. Chunk []), sock_loads = loads \<rparr>"

text \<open>
  \<open>play\<close>: \<open>result = self._send_command(["set_property", "pause", False]); return
  result is not None\<close>. \<open>None\<close> is a call that never returns, \<open>Some (Inl e)\<close> an
  exception that escapes it, \<open>Some (Inr b)\<close> the value returned.
  \<open>DummyPlaybackController.play\<close> always returns \<open>True\<close>.
\<close>

definition play :: "socket_env \<Rightarrow> bool \<Rightarrow> (py_error + bool) option" where
  "play env sock =
     (case send_command env sock of
        None \<Rightarrow> None
      | Some (Inl e, sock') \<Rightarrow> Some (Inl e)
      | Some (Inr result, sock') \<Rightarrow> Some (Inr (result \<noteq> None)))"

subsection \<open>Property queries and the status snapshot\<close>

text \<open>
  From here on a command is abstracted to its outcome: \<open>ipc cmd\<close> is what
  \<open>_send_command(cmd)\<close> returns, \<open>None\<close> for "no response". The engine is taken
  to answer the queries of one \<open>get_status\<close> or \<open>get_queue_duration\<close> call from one
  state.
\<close>

type_synonym ipc = "pyval list \<Rightarrow> reply option"

definition get_property :: "ipc \<Rightarrow> string \<Rightarrow> pyval" where
  "get_property ipc name =
     (case ipc [PStr ''get_property'', PStr name] of
        None \<Rightarrow> PNone
      | Some result \<Rightarrow>
          if result \<noteq> [] \<and> map_of result ''error'' = Some (PStr ''success'')
          then (case map_of result ''data'' of None \<Rightarrow> PNone | Some v \<Rightarrow> v)
          else PNone)"

record PlaybackStatus =
  playing :: bool
  status_filename :: pyval
  position :: pyval
  status_duration :: pyval
  playlist_count :: pyval
  playlist_pos :: pyval
  paused :: pyval

definition get_status :: "ipc \<Rightarrow> PlaybackStatus" where
  "get_status ipc =
     \<lparr> playing = (\<not> truthy (py_or (get_property ipc ''idle-active'') (PBool False))),
       status_filename = get_property ipc ''filename'',
       position = py_or (get_property ipc ''time-pos'') (PNum 0),
       status_duration = py_or (get_property ipc ''duration'') (PNum 0),
       playlist_count = py_or (get_property ipc ''playlist-count'') (PNum 0),
       playlist_pos = py_or (get_property ipc ''playlist-pos'') (PNum 0),
       paused = py_or (get_property ipc ''pause'') (PBool False) \<rparr>"

definition get_playlist :: "ipc \<Rightarrow> pyval" where
  "get_playlist ipc = py_or (get_property ipc ''playlist'') (PList [])"

definition get_remaining_time :: "ipc \<Rightarrow> py_error + real" where
  "get_remaining_time ipc =
     (let status = get_status ipc in
      case py_num (status_duration status) of
        Inl e \<Rightarrow> Inl e
      | Inr d \<Rightarrow>
          if d > 0 then
            (case py_num (position status) of
               Inl e \<Rightarrow> Inl e
             | Inr p \<Rightarrow> Inr (d - p))
          else Inr 0)"

definition get_queue_duration :: "ipc \<Rightarrow> py_error + real" where
  "get_queue_duration ipc =
     (let status = get_status ipc;
          playlist = get_playlist ipc in
      case get_remaining_time ipc of
        Inl e \<Rightarrow> Inl e
      | Inr remaining \<Rightarrow>
          (case py_len playlist of
             Inl e \<Rightarrow> Inl e
           | Inr n \<Rightarrow>
               (case py_num (playlist_pos status) of
                  Inl e \<Rightarrow> Inl e
                | Inr pos \<Rightarrow> Inr (remaining + (real n - pos - 1) * 8))))"

text \<open>The loadfile command behind \<open>add_to_playlist\<close> (the base path is prepended
  by \<open>get_full_path\<close> when one is configured).\<close>

definition add_to_playlist :: "ipc \<Rightarrow> string \<Rightarrow> bool" where
  "add_to_playlist ipc path =
     (case ipc [PStr ''loadfile'', PStr path, PStr ''append''] of
        None \<Rightarrow> False
      | Some result \<Rightarrow> map_of result ''error'' = Some (PStr ''success''))"

text \<open>An engine that answers each property query from a table, with the success
  envelope, and no other command.\<close>

definition engine_with :: "(string \<times> pyval) list \<Rightarrow> ipc" where
  "engine_with props cmd =
     (case cmd of
        [PStr verb, PStr name] \<Rightarrow>
          if verb = ''get_property'' then
            (case map_of props name of
               None \<Rightarrow> None
             | Some v \<Rightarrow> Some [(''error'', PStr ''success''), (''data'', v)])
          else None
      | _ \<Rightarrow> None)"

definition dead_engine :: ipc where
  "dead_engine cmd = None"

section \<open>Selector (selector.py) and the condensed item view\<close>

subsection \<open>\<open>Clip.to_selector_context\<close>\<close>

record clip_context =
  cc_filename :: string
  cc_duration :: real
  cc_description :: string
  cc_mood :: string
  cc_setting :: string
  cc_subjects :: "string list"
  cc_tags :: "string list"
  cc_has_speech :: bool
  cc_speech_preview :: "string option"
  cc_motion :: string
  cc_colors :: "string list"

definition speech_preview :: "string option \<Rightarrow> string option" where
  "speech_preview t =
     (case t of
        None \<Rightarrow> None
      | Some s \<Rightarrow> if s \<noteq> [] \<and> length s > 100 then Some (take 100 s @ ''...'') else Some s)"

definition to_selector_context :: "clip \<Rightarrow> clip_context" where
  "to_selector_context c =
     \<lparr> cc_filename = filename c, cc_duration = duration c,
       cc_description = description c, cc_mood = mood c, cc_setting = setting c,
       cc_subjects = take 5 (subjects c), cc_tags = take 8 (suggested_tags c),
       cc_has_speech = has_speech c,
       cc_speech_preview = speech_preview (speech_transcript c),
       cc_motion = motion_intensity c, cc_colors = take 4 (dominant_colors c) \<rparr>"

subsection \<open>The candidate sampler: \<open>_smart_sample\<close>\<close>

text \<open>\<open>str.lower\<close> on the ASCII letters (a \<open>char\<close> here is a byte).\<close>

definition lower_char :: "char \<Rightarrow> char" where
  "lower_char c =
     (let n = (of_char c :: nat) in if 65 \<le> n \<and> n \<le> 90 then char_of (n + 32) else c)"

definition lower :: "string \<Rightarrow> string" where
  "lower s = map lower_char s"

text \<open>The bucket a motion intensity falls in: \<open>low\<close>, \<open>medium\<close> or \<open>high\<close> after
  lowering, and \<open>medium\<close> for anything else.\<close>

definition motion_bucket :: "string \<Rightarrow> string" where
  "motion_bucket m =
     (if lower m = ''low'' \<or> lower m = ''medium'' \<or> lower m = ''high'' then lower m
      else ''medium'')"

definition by_motion :: "clip list \<Rightarrow> string \<Rightarrow> clip list" where
  "by_motion clips key = filter (\<lambda>c. motion_bucket (motion_intensity c) = key) clips"

text \<open>
  \<open>random.sample(pool, k)\<close> draws \<open>k\<close> positions without replacement. The draws
  come from a stream \<open>rnd\<close> of numbers read from index \<open>i\<close> on: each draw picks
  position \<open>rnd i mod length pool\<close> of what is left and removes it, so every
  ordered choice of \<open>k\<close> positions is the outcome of some stream. Python raises
  \<open>ValueError\<close> for \<open>k > len(pool)\<close>; \<open>_smart_sample\<close> only ever asks for
  \<open>min(..., len(pool))\<close>, and here the draw stops when the pool is empty.
\<close>

fun sample :: "(nat \<Rightarrow> nat) \<Rightarrow> nat \<Rightarrow> 'a list \<Rightarrow> nat \<Rightarrow> 'a list" where
  "sample rnd i pool 0 = []"
| "sample rnd i pool (Suc k) =
     (if pool = [] then []
      else
        (let j = rnd i mod length pool in
         pool ! j # sample rnd (Suc i) (take j pool @ drop (Suc j) pool) k))"

text \<open>The clips \<open>_smart_sample\<close> picks (its \<open>result\<close> list), in the order of the
  dictionary \<open>by_motion\<close>: low, medium, high, then the fill from the unused clips.\<close>

definition smart_sample_clips :: "(nat \<Rightarrow> nat) \<Rightarrow> clip list \<Rightarrow> nat \<Rightarrow> clip list" where
  "smart_sample_clips rnd clips n =
     (let per_group = n div 3;
          low = by_motion clips ''low'';
          medium = by_motion clips ''medium'';
          high = by_motion clips ''high'';
          r1 = sample rnd 0 low (min per_group (length low));
          r2 = sample rnd (length r1) medium (min per_group (length medium));
          r3 = sample rnd (length r1 + length r2) high (min per_group (length high));
          result = r1 @ r2 @ r3;
          remaining = n - length result
      in
        if remaining > 0 then
          (let unused = filter (\<lambda>c. c \<notin> set result) clips in
           result @ sample rnd (length result) unused (min remaining (length unused)))
        else result)"

definition smart_sample :: "(nat \<Rightarrow> nat) \<Rightarrow> clip list \<Rightarrow> nat \<Rightarrow> clip_context list" where
  "smart_sample rnd clips n = map to_selector_context (smart_sample_clips rnd clips n)"

subsection \<open>\<open>Selector.select\<close>\<close>

text \<open>
  The selection collaborator is outside the program. Its answer to one call is one of:
  the API call raises; the text holds no JSON object (\<open>select\<close> returns its error
  result); the text is not JSON but holds braces that do not parse (the second
  \<open>json.loads\<close> raises); or a JSON object, read as a result with a list of selections.
  A selection's \<open>filename\<close> key may be missing (\<open>sel["filename"]\<close> then raises
  \<open>KeyError\<close>).
\<close>

record selection =
  sel_filename :: "string option"
  reasoning :: "string option"

record select_result =
  result_error :: "string option"
  selections :: "selection list"
  narrative_note :: "string option"
  suggested_direction :: "string option"

datatype llm_reply = ApiRaises | NoJson | UnparsableJson | Json select_result

text \<open>The lines the program prints, kept as a trace.\<close>

datatype log_entry =
    Warning_nonexistent_clip string
  | Selection_error string
  | No_clips_selected
  | Queued string
  | Reason string
  | Failed_to_queue string
  | Narrative string
  | Suggested_direction string
  | Direction_updated string
  | Buffer_low real
  | Message string

text \<open>The validation loop of \<open>select\<close>: a selection whose filename the manifest
  knows is kept, any other is dropped with a warning.\<close>

fun validate_selections ::
  "clip list \<Rightarrow> selection list \<Rightarrow> selection list \<Rightarrow> log_entry list \<Rightarrow>
   (py_error + selection list) \<times> log_entry list" where
  "validate_selections m [] valid lg = (Inr valid, lg)"
| "validate_selections m (sel # sels) valid lg =
     (case sel_filename sel of
        None \<Rightarrow> (Inl KeyError, lg)
      | Some fn \<Rightarrow>
          if get_clip m fn \<noteq> None then validate_selections m sels (valid @ [sel]) lg
          else validate_selections m sels valid (lg @ [Warning_nonexistent_clip fn]))"

text \<open>
  \<open>select\<close> hands the collaborator the prompt, built from the context snapshot of the
  narrative state, the condensed candidates and the number of selections asked for:
  \<open>llm\<close> is the collaborator as a function of these three.
\<close>

type_synonym collaborator = "state_context \<Rightarrow> clip_context list \<Rightarrow> nat \<Rightarrow> llm_reply"

definition available_clips :: "clip list \<Rightarrow> string list \<Rightarrow> clip list" where
  "available_clips m exclude_filenames = filter (\<lambda>c. filename c \<notin> set exclude_filenames) m"

text \<open>The candidates shown to the collaborator: all available clips, sampled down
  to 50 when there are more.\<close>

definition available_context :: "(nat \<Rightarrow> nat) \<Rightarrow> clip list \<Rightarrow> clip_context list" where
  "available_context rnd available =
     (if length available > 50 then smart_sample rnd available 50
      else map to_selector_context available)"

definition select ::
  "clip list \<Rightarrow> narrative_state \<Rightarrow> collaborator \<Rightarrow> (nat \<Rightarrow> nat) \<Rightarrow> nat \<Rightarrow> string list \<Rightarrow>
   log_entry list \<Rightarrow> (py_error + select_result) \<times> log_entry list" where
  "select m st llm rnd num_selections exclude_filenames lg =
     (let available = available_clips m exclude_filenames in
      if available = [] then
        (Inr \<lparr> result_error = Some ''No available clips'', selections = [],
               narrative_note = None, suggested_direction = None \<rparr>, lg)
      else
        (case llm (to_context st) (available_context rnd available) num_selections of
           ApiRaises \<Rightarrow> (Inl APIError, lg)
         | NoJson \<Rightarrow>
             (Inr \<lparr> result_error = Some ''Failed to parse LLM response'', selections = [],
                    narrative_note = None, suggested_direction = None \<rparr>, lg)
         | UnparsableJson \<Rightarrow> (Inl JSONDecodeError, lg)
         | Json result \<Rightarrow>
             (case validate_selections m (selections result) [] lg of
                (Inl e, lg') \<Rightarrow> (Inl e, lg')
              | (Inr valid, lg') \<Rightarrow> (Inr (result \<lparr> selections := valid \<rparr>), lg'))))"

text \<open>The identifiers dropped by the validation, read off the printed lines.\<close>

fun dropped_candidates :: "log_entry list \<Rightarrow> string list" where
  "dropped_candidates [] = []"
| "dropped_candidates (Warning_nonexistent_clip fn # es) = fn # dropped_candidates es"
| "dropped_candidates (e # es) = dropped_candidates es"

definition mark_played :: "clip list \<Rightarrow> string \<Rightarrow> string \<Rightarrow> narrative_state \<Rightarrow> narrative_state" where
  "mark_played m fn now st =
     (case get_clip m fn of None \<Rightarrow> st | Some c \<Rightarrow> add_played c now st)"

subsection \<open>\<open>Selector.process_feedback\<close>\<close>




section \<open>Orchestrator (orchestrator.py)\<close>

record OrchestratorConfig =
  min_buffer_seconds :: real
  target_buffer_seconds :: real
  clips_per_selection :: nat
  poll_interval :: real
  use_dummy_playback :: bool
  fullscreen :: bool

definition default_config :: OrchestratorConfig where
  "default_config = \<lparr> min_buffer_seconds = 15, target_buffer_seconds = 30,
     clips_per_selection = 3, poll_interval = 1, use_dummy_playback = False,
     fullscreen = False \<rparr>"

text \<open>
  The orchestrator's fields, with the manifest and the selector's narrative state it
  owns. \<open>buffer_thread_started\<close> says whether \<open>_buffer_thread\<close> has been created
  and started. \<open>enqueue_calls\<close> (the filenames passed to
  \<open>playback.add_to_playlist\<close>, in order) and \<open>printed\<close> (the lines printed) are
  traces of what it did.
\<close>

record orchestrator =
  config :: OrchestratorConfig
  manifest :: "clip list"
  selector_state :: narrative_state
  running :: bool
  queued_filenames :: "string list"
  buffer_thread_started :: bool
  feedback_queue :: "string list"
  clips_played :: nat
  selections_made :: nat
  enqueue_calls :: "string list"
  printed :: "log_entry list"

definition Orchestrator :: "OrchestratorConfig \<Rightarrow> clip list \<Rightarrow> orchestrator" where
  "Orchestrator cfg m = \<lparr> config = cfg, manifest = m, selector_state = NarrativeState,
     running = False, queued_filenames = [], buffer_thread_started = False,
     feedback_queue = [], clips_played = 0,
     selections_made = 0, enqueue_calls = [], printed = [] \<rparr>"

text \<open>
  What is outside the orchestrator: the selection collaborator, the sampler's random
  draws, and the playback engine. \<open>loadfile_ok calls fn\<close> is whether the engine
  acknowledges \<open>add_to_playlist(fn)\<close> after the earlier calls \<open>calls\<close>
  (\<open>DummyPlaybackController\<close> always does); \<open>start_mpv_ok\<close> and \<open>connect_ok\<close> are
  the results of \<open>playback.start_mpv\<close> and \<open>playback.connect\<close>; \<open>play_result\<close> is
  what \<open>playback.play()\<close> does, as \<open>play\<close> above: \<open>None\<close> when the call never
  returns, \<open>Some (Inl e)\<close> when \<open>e\<close> escapes it, \<open>Some (Inr b)\<close> when it returns
  \<open>b\<close>.
\<close>

record environment =
  llm :: collaborator
  rnd :: "nat \<Rightarrow> nat"
  loadfile_ok :: "string list \<Rightarrow> string \<Rightarrow> bool"
  start_mpv_ok :: bool
  connect_ok :: bool
  play_result :: "(py_error + bool) option"

text \<open>The loop of \<open>_fill_buffer\<close> over the validated selections.\<close>

fun enqueue_selections ::
  "environment \<Rightarrow> selection list \<Rightarrow> orchestrator \<Rightarrow> py_error + orchestrator" where
  "enqueue_selections env [] s = Inr s"
| "enqueue_selections env (sel # sels) s =
     (case sel_filename sel of
        None \<Rightarrow> Inl KeyError
      | Some fn \<Rightarrow>
          (let acked = loadfile_ok env (enqueue_calls s) fn;
               s1 = s \<lparr> enqueue_calls := enqueue_calls s @ [fn] \<rparr>
           in
             if acked then
               enqueue_selections env sels
                 (s1 \<lparr> queued_filenames := queued_filenames s1 @ [fn],
                      printed := printed s1 @
                        [Queued fn,
                         Reason (case reasoning sel of None \<Rightarrow> ''N/A'' | Some r \<Rightarrow> r)] \<rparr>)
             else
               enqueue_selections env sels
                 (s1 \<lparr> printed := printed s1 @ [Failed_to_queue fn] \<rparr>)))"

definition exclusion_list :: "orchestrator \<Rightarrow> string list" where
  "exclusion_list s =
     map played_filename (recently_played (selector_state s)) @ queued_filenames s"

text \<open>For one fill cycle from \<open>s\<close>: the collaborator's reply to the prompt
  \<open>select\<close> builds (when it is called), and the filenames of the validated
  selections \<open>select\<close> returns.\<close>

definition collaborator_reply :: "environment \<Rightarrow> orchestrator \<Rightarrow> llm_reply" where
  "collaborator_reply env s =
     llm env (to_context (selector_state s))
       (available_context (rnd env) (available_clips (manifest s) (exclusion_list s)))
       (clips_per_selection (config s))"

definition selected_filenames :: "environment \<Rightarrow> orchestrator \<Rightarrow> string list" where
  "selected_filenames env s =
     (case select (manifest s) (selector_state s) (llm env) (rnd env)
             (clips_per_selection (config s)) (exclusion_list s) (printed s) of
        (Inl e, lg) \<Rightarrow> []
      | (Inr result, lg) \<Rightarrow> List.map_filter sel_filename (selections result))"

definition narrative_lines :: "select_result \<Rightarrow> log_entry list" where
  "narrative_lines result =
     (case narrative_note result of
        None \<Rightarrow> []
      | Some n \<Rightarrow> if n \<noteq> [] then [Narrative n] else []) @
     (case suggested_direction result of
        None \<Rightarrow> []
      | Some d \<Rightarrow> if d \<noteq> [] then [Suggested_direction d] else [])"

text \<open>\<open>_fill_buffer\<close>. It returns nothing; \<open>Inl\<close> is an exception that escapes it,
  \<open>Inr\<close> the orchestrator afterwards.\<close>

definition fill_buffer :: "environment \<Rightarrow> orchestrator \<Rightarrow> py_error + orchestrator" where
  "fill_buffer env s =
     (case select (manifest s) (selector_state s) (llm env) (rnd env)
             (clips_per_selection (config s)) (exclusion_list s) (printed s) of
        (Inl e, lg) \<Rightarrow> Inl e
      | (Inr result, lg) \<Rightarrow>
          (case result_error result of
             Some msg \<Rightarrow> Inr (s \<lparr> printed := lg @ [Selection_error msg] \<rparr>)
           | None \<Rightarrow>
               if selections result = [] then Inr (s \<lparr> printed := lg @ [No_clips_selected] \<rparr>)
               else
                 (case enqueue_selections env (selections result) (s \<lparr> printed := lg \<rparr>) of
                    Inl e \<Rightarrow> Inl e
                  | Inr s1 \<Rightarrow>
                      Inr (s1 \<lparr> selections_made := selections_made s1 + 1,
                                printed := printed s1 @ narrative_lines result \<rparr>))))"

text \<open>\<open>_mark_current_as_played\<close>; \<open>list.remove\<close> takes out the first occurrence.\<close>

definition mark_current_as_played :: "string \<Rightarrow> string \<Rightarrow> orchestrator \<Rightarrow> orchestrator" where
  "mark_current_as_played fn now s =
     (if fn \<in> set (queued_filenames s) then
        s \<lparr> queued_filenames := remove1 fn (queued_filenames s),
            selector_state := mark_played (manifest s) fn now (selector_state s),
            clips_played := clips_played s + 1 \<rparr>
      else s)"




subsection \<open>One pass of \<open>_buffer_loop\<close>\<close>





subsection \<open>Fixtures\<close>

text \<open>A manifest entry with the given filename and motion intensity, and an
  environment whose engine accepts everything and whose collaborator always answers
  with the given reply.\<close>

definition clip_named :: "string \<Rightarrow> string \<Rightarrow> clip" where
  "clip_named fn motion = \<lparr> filename = fn, duration = 8, description = ''a clip'',
     subjects = [], setting = ''studio'', mood = ''calm'', dominant_colors = [],
     motion_intensity = motion, has_speech = False, speech_transcript = None,
     suggested_tags = [] \<rparr>"

definition pick :: "string \<Rightarrow> selection" where
  "pick fn = \<lparr> sel_filename = Some fn, reasoning = None \<rparr>"

definition answer :: "selection list \<Rightarrow> llm_reply" where
  "answer sels = Json \<lparr> result_error = None, selections = sels, narrative_note = None,
     suggested_direction = None \<rparr>"

definition willing_env :: "llm_reply \<Rightarrow> environment" where
  "willing_env r = \<lparr> llm = (\<lambda>ctx cands n. r), rnd = (\<lambda>i. 0),
     loadfile_ok = (\<lambda>calls fn. True), start_mpv_ok = True, connect_ok = True,
     play_result = Some (Inr True) \<rparr>"

text \<open>A pool of 100 clips for the sampler: 40 of low motion, 30 of medium and 30 of
  high, the intensities written in the mixed case a manifest may have.\<close>

definition sampler_pool :: "clip list" where
  "sampler_pool =
     map (\<lambda>i. clip_named (replicate (Suc i) CHR ''a'') ''low'') [0..<40] @
     map (\<lambda>i. clip_named (replicate (Suc i) CHR ''b'') ''Medium'') [0..<30] @
     map (\<lambda>i. clip_named (replicate (Suc i) CHR ''c'') ''HIGH'') [0..<30]"


section \<open>Bounded histories\<close>

lemma length_py_last: "length (py_last n xs) \<le> n"
  by (simp add: py_last_def)

lemma py_last_short: "length xs \<le> n \<Longrightarrow> py_last n xs = xs"
  by (simp add: py_last_def)

lemma py_last_append: "py_last n (py_last n xs @ ys) = py_last n (xs @ ys)"
proof (cases "length xs \<le> n")
  case True
  then show ?thesis by (simp add: py_last_def)
next
  case False
  then show ?thesis by (simp add: py_last_def add.commute)
qed

lemma py_last_idem: "py_last n (py_last n xs) = py_last n xs"
  using py_last_append [of n xs "[]"] by simp

lemma do_call_bounded:
  assumes "length (recently_played s) \<le> 10" and "length (mood_trajectory s) \<le> 15"
    and "length (feedback_history s) \<le> 10"
  shows "length (recently_played (do_call c s)) \<le> 10"
    and "length (mood_trajectory (do_call c s)) \<le> 15"
    and "length (feedback_history (do_call c s)) \<le> 10"
  using assms by (cases c; simp add: add_played_def add_feedback_def length_py_last)+

lemma do_calls_bounded:
  assumes "length (recently_played s) \<le> 10" and "length (mood_trajectory s) \<le> 15"
    and "length (feedback_history s) \<le> 10"
  shows "length (recently_played (do_calls cs s)) \<le> 10 \<and>
         length (mood_trajectory (do_calls cs s)) \<le> 15 \<and>
         length (feedback_history (do_calls cs s)) \<le> 10"
  using assms
proof (induction cs arbitrary: s)
  case Nil
  then show ?case by simp
next
  case (Cons c cs)
  from Cons.prems show ?case
    by (simp del: do_call.simps add: Cons.IH do_call_bounded)
qed

lemma recently_played_do_calls:
  "py_last 10 (recently_played (do_calls cs s)) = py_last 10 (recently_played s @ all_played cs)"
proof (induction cs arbitrary: s)
  case Nil
  show ?case by simp
next
  case (Cons c cs)
  show ?case
    by (cases c) (simp_all add: Cons.IH add_played_def add_feedback_def py_last_append)
qed

lemma mood_trajectory_do_calls:
  "py_last 15 (mood_trajectory (do_calls cs s)) = py_last 15 (mood_trajectory s @ all_moods cs)"
proof (induction cs arbitrary: s)
  case Nil
  show ?case by simp
next
  case (Cons c cs)
  show ?case
    by (cases c) (simp_all add: Cons.IH add_played_def add_feedback_def py_last_append)
qed

lemma feedback_history_do_calls:
  "py_last 10 (feedback_history (do_calls cs s)) =
     py_last 10 (feedback_history s @ all_feedback cs)"
proof (induction cs arbitrary: s)
  case Nil
  show ?case by simp
next
  case (Cons c cs)
  show ?case
    by (cases c) (simp_all add: Cons.IH add_played_def add_feedback_def py_last_append)
qed

text \<open>The trim \<open>xs[-n:]\<close> keeps \<open>min n (length xs)\<close> elements, and they are the end
  of \<open>xs\<close>: what is cut off stands in front of them.\<close>

lemma py_last_is_end:
  "length (py_last n xs) = min n (length xs) \<and> (\<exists>older. xs = older @ py_last n xs)"
proof
  show "length (py_last n xs) = min n (length xs)"
    by (simp add: py_last_def min_def)
  have "xs = take (length xs - n) xs @ py_last n xs"
    by (simp add: py_last_def)
  then show "\<exists>older. xs = older @ py_last n xs" ..
qed

text \<open>
  Claim C6. After any sequence of \<open>add_played\<close> and \<open>add_feedback\<close> calls on a fresh
  narrative state, \<open>recently_played\<close> has at most 10 entries, \<open>mood_trajectory\<close> at most
  15 and \<open>feedback_history\<close> at most 10. Each holds as many entries as the calls
  recorded, up to its bound, and is the end of the sequence of all recorded entries in
  call order: the entries missing from it are the oldest ones, and nothing is reordered.
\<close>

theorem bounded_histories_most_recent:
  "length (recently_played (do_calls cs NarrativeState)) \<le> 10 \<and>
   length (mood_trajectory (do_calls cs NarrativeState)) \<le> 15 \<and>
   length (feedback_history (do_calls cs NarrativeState)) \<le> 10 \<and>
   length (recently_played (do_calls cs NarrativeState)) = min 10 (length (all_played cs)) \<and>
   length (mood_trajectory (do_calls cs NarrativeState)) = min 15 (length (all_moods cs)) \<and>
   length (feedback_history (do_calls cs NarrativeState)) = min 10 (length (all_feedback cs)) \<and>
   (\<exists>older. all_played cs = older @ recently_played (do_calls cs NarrativeState)) \<and>
   (\<exists>older. all_moods cs = older @ mood_trajectory (do_calls cs NarrativeState)) \<and>
   (\<exists>older. all_feedback cs = older @ feedback_history (do_calls cs NarrativeState))"
proof -
  let ?s = "do_calls cs NarrativeState"
  have b: "length (recently_played ?s) \<le> 10 \<and> length (mood_trajectory ?s) \<le> 15 \<and>
           length (feedback_history ?s) \<le> 10"
    by (rule do_calls_bounded) (simp_all add: NarrativeState_def)
  have "recently_played ?s = py_last 10 (recently_played ?s)"
    using b by (simp add: py_last_short)
  then have r: "recently_played ?s = py_last 10 (all_played cs)"
    by (simp add: recently_played_do_calls NarrativeState_def)
  have "mood_trajectory ?s = py_last 15 (mood_trajectory ?s)"
    using b by (simp add: py_last_short)
  then have m: "mood_trajectory ?s = py_last 15 (all_moods cs)"
    by (simp add: mood_trajectory_do_calls NarrativeState_def)
  have "feedback_history ?s = py_last 10 (feedback_history ?s)"
    using b by (simp add: py_last_short)
  then have f: "feedback_history ?s = py_last 10 (all_feedback cs)"
    by (simp add: feedback_history_do_calls NarrativeState_def)
  from b py_last_is_end [of 10 "all_played cs"] py_last_is_end [of 15 "all_moods cs"]
    py_last_is_end [of 10 "all_feedback cs"]
  show ?thesis
    unfolding r m f by blast
qed

text \<open>Twelve clips played in turn, named by 0 to 11 letters: the ten kept are the
  third to the twelfth, in the order played.\<close>

lemma recently_played_overflow_example:
  "map played_filename
     (recently_played
        (do_calls (map (\<lambda>n. AddPlayed (clip_named (replicate n CHR ''x'') ''low'') ''now'') [0..<12])
           NarrativeState)) =
   map (\<lambda>n. replicate n CHR ''x'') [2..<12]"
  by code_simp

section \<open>The playback engine client\<close>

subsection \<open>The status snapshot of a dead connection\<close>

text \<open>
  Claim C1, evaluated where every property query returns \<open>None\<close>. The snapshot
  holds the zero value in every field but one: \<open>playing\<close> is
  \<open>not (None or False)\<close>, which is \<open>True\<close>.
\<close>

theorem get_status_dead_engine:
  "get_status dead_engine =
     \<lparr> playing = True, status_filename = PNone, position = PNum 0, status_duration = PNum 0,
       playlist_count = PNum 0, playlist_pos = PNum 0, paused = PBool False \<rparr>"
  by (simp add: get_status_def get_property_def dead_engine_def py_or_def)

subsection \<open>A read loop with no end\<close>

text \<open>The timeout bounds one \<open>recv\<close>, not the loop: as long as every read returns
  bytes without a newline (none at all included), the loop goes on.\<close>

lemma recv_loop_never_returns:
  assumes "recv_loop rcv i r = Some y"
  shows "\<not> ((\<forall>j. \<exists>c. rcv j = Chunk c \<and> CHR 0x0A \<notin> set c) \<and> CHR 0x0A \<notin> set r)"
proof (rule recv_loop.raw_induct
    [where P = "\<lambda>rcv i r y. \<not> ((\<forall>j. \<exists>c. rcv j = Chunk c \<and> CHR 0x0A \<notin> set c) \<and> CHR 0x0A \<notin> set r)",
      OF _ assms])
  fix f :: "(nat \<Rightarrow> recv_result) \<Rightarrow> nat \<Rightarrow> string \<Rightarrow> string option option"
    and rcv i r y
  assume IH: "\<And>rcv i r y. f rcv i r = Some y \<Longrightarrow>
      \<not> ((\<forall>j. \<exists>c. rcv j = Chunk c \<and> CHR 0x0A \<notin> set c) \<and> CHR 0x0A \<notin> set r)"
    and step: "(case rcv i of
        Chunk chunk \<Rightarrow>
          if CHR 0x0A \<in> set (r @ chunk) then Some (Some (r @ chunk))
          else f rcv (Suc i) (r @ chunk)
      | SocketError \<Rightarrow> Some None) = Some y"
  show "\<not> ((\<forall>j. \<exists>c. rcv j = Chunk c \<and> CHR 0x0A \<notin> set c) \<and> CHR 0x0A \<notin> set r)"
  proof
    assume quiet: "(\<forall>j. \<exists>c. rcv j = Chunk c \<and> CHR 0x0A \<notin> set c) \<and> CHR 0x0A \<notin> set r"
    then obtain c where c: "rcv i = Chunk c" "CHR 0x0A \<notin> set c" by blast
    with quiet step have "f rcv (Suc i) (r @ c) = Some y" by simp
    from IH [OF this] quiet c show False by simp
  qed
qed

lemma recv_loop_closed: "recv_loop (\<lambda>i. Chunk []) i [] = None"
proof (cases "recv_loop (\<lambda>i. Chunk []) i []")
  case None
  then show ?thesis .
next
  case (Some y)
  from recv_loop_never_returns [OF this] show ?thesis by simp
qed

text \<open>A \<open>recv\<close> that raises (the 2 second timeout, or any other socket error) does
  end the loop, and the call returns "no response" with the connection dropped.\<close>

lemma recv_loop_socket_error: "rcv i = SocketError \<Longrightarrow> recv_loop rcv i r = Some None"
  by (subst recv_loop.simps) simp

lemma send_command_timeout:
  "sock_send_ok env \<Longrightarrow> sock \<or> sock_connect_ok env \<Longrightarrow> sock_recv env 0 = SocketError \<Longrightarrow>
   send_command env sock = Some (Inr None, False)"
  by (auto simp add: send_command_def recv_loop_socket_error)

text \<open>
  Claim C3, evaluated at a peer that has closed the connection: every read yields
  empty data, no read raises, and \<open>_send_command\<close> never returns.
\<close>

theorem send_command_closed_peer_hangs: "send_command (closed_peer loads) sock = None"
  by (simp add: send_command_def closed_peer_def recv_loop_closed)

text \<open>\<open>play\<close> goes through the same read loop: on the closed peer it never returns,
  and a reply that is not UTF-8 makes it raise.\<close>

lemma play_closed_peer: "play (closed_peer loads) sock = None"
  by (simp add: play_def send_command_def closed_peer_def recv_loop_closed)

lemma play_bad_unicode:
  assumes "sock_send_ok env" and "sock \<or> sock_connect_ok env"
    and "sock_recv env 0 = Chunk chunk" and "CHR 0x0A \<in> set chunk"
    and "sock_loads env chunk = BadUnicode"
  shows "play env sock = Some (Inl UnicodeDecodeError)"
proof -
  have "recv_loop (sock_recv env) 0 [] = Some (Some chunk)"
    using assms(3,4) by (subst recv_loop.simps) simp
  with assms(1,2,5) show ?thesis
    by (auto simp add: play_def send_command_def)
qed

subsection \<open>The buffer estimate\<close>

lemma get_remaining_time_num:
  assumes "status_duration (get_status ipc) = PNum d" and "position (get_status ipc) = PNum p"
  shows "get_remaining_time ipc = Inr (if 0 < d then d - p else 0)"
  using assms by (simp add: get_remaining_time_def Let_def)

text \<open>
  What the code computes: with a numeric duration \<open>d\<close>, position \<open>p\<close> and playlist
  position \<open>k\<close> and a playlist \<open>pl\<close>, the estimate is \<open>d - p\<close> when \<open>d > 0\<close> and 0
  otherwise, plus 8 seconds times \<open>length pl - k - 1\<close>. It agrees with the clamped
  remaining time \<open>max 0 (d - p)\<close> as long as \<open>0 < d\<close> and \<open>p \<le> d\<close>.
\<close>

lemma get_queue_duration_estimate:
  assumes "status_duration (get_status ipc) = PNum d"
    and "position (get_status ipc) = PNum p"
    and "playlist_pos (get_status ipc) = PNum k"
    and "get_playlist ipc = PList pl"
  shows "get_queue_duration ipc =
           Inr ((if 0 < d then d - p else 0) + (real (length pl) - k - 1) * 8) \<and>
         (0 < d \<and> p \<le> d \<longrightarrow>
            get_queue_duration ipc = Inr (max 0 (d - p) + 8 * (real (length pl) - k - 1)))"
proof -
  have "get_queue_duration ipc =
          Inr ((if 0 < d then d - p else 0) + (real (length pl) - k - 1) * 8)"
    using assms by (simp add: get_queue_duration_def get_remaining_time_num Let_def)
  then show ?thesis by (simp add: mult.commute)
qed

lemma map_of_engine_props:
  "get_property (engine_with props) name = (case map_of props name of None \<Rightarrow> PNone | Some v \<Rightarrow> v)"
  by (simp add: get_property_def engine_with_def split: option.splits)

text \<open>Position 3 of duration 8, the first of three playlist entries playing, so two
  further entries: 5 + 16 = 21 seconds.\<close>

lemma get_queue_duration_scenario:
  "get_queue_duration
     (engine_with [(''duration'', PNum 8), (''time-pos'', PNum 3), (''playlist-pos'', PNum 0),
        (''playlist'', PList [PDict [(''filename'', PStr ''a.mp4''), (''current'', PBool True)],
           PDict [(''filename'', PStr ''b.mp4'')], PDict [(''filename'', PStr ''c.mp4'')]])]) =
     Inr 21"
  by (simp add: get_queue_duration_def get_remaining_time_def get_status_def get_playlist_def
      map_of_engine_props py_or_def Let_def)

text \<open>
  Claim C4, evaluated where the engine reports a position past the duration of the
  current item (9 of 8), the first of three playlist entries playing. The remaining
  time is guarded by \<open>duration > 0\<close> and not clamped, so it is \<open>-1\<close>, and the
  estimate is \<open>-1 + 16 = 15\<close> where the claim's \<open>max 0 (8 - 9) + 8 * 2\<close> is 16.
\<close>

theorem get_queue_duration_not_clamped:
  "get_remaining_time
     (engine_with [(''duration'', PNum 8), (''time-pos'', PNum 9), (''playlist-pos'', PNum 0),
        (''playlist'', PList [PDict [(''filename'', PStr ''a.mp4''), (''current'', PBool True)],
           PDict [(''filename'', PStr ''b.mp4'')], PDict [(''filename'', PStr ''c.mp4'')]])]) =
     Inr (- 1) \<and>
   get_queue_duration
     (engine_with [(''duration'', PNum 8), (''time-pos'', PNum 9), (''playlist-pos'', PNum 0),
        (''playlist'', PList [PDict [(''filename'', PStr ''a.mp4''), (''current'', PBool True)],
           PDict [(''filename'', PStr ''b.mp4'')], PDict [(''filename'', PStr ''c.mp4'')]])]) =
     Inr 15 \<and>
   max 0 (8 - 9) + 8 * (real (length [''b.mp4'', ''c.mp4''])) = (16 :: real)"
  by (simp add: get_queue_duration_def get_remaining_time_def get_status_def get_playlist_def
      map_of_engine_props py_or_def Let_def)

section \<open>The candidate sampler\<close>

subsection \<open>Drawing without replacement\<close>

lemma sample_length: "length (sample draws i pool k) = min k (length pool)"
proof (induction k arbitrary: i pool)
  case 0
  show ?case by simp
next
  case (Suc k)
  show ?case
  proof (cases "pool = []")
    case True
    then show ?thesis by simp
  next
    case False
    let ?j = "draws i mod length pool"
    from False have j: "?j < length pool" by simp
    then have "length (take ?j pool @ drop (Suc ?j) pool) = length pool - 1"
      by simp
    then have "length (sample draws (Suc i) (take ?j pool @ drop (Suc ?j) pool) k) =
               min k (length pool - 1)"
      using Suc.IH by metis
    moreover obtain n where "length pool = Suc n"
      using False by (cases pool) simp_all
    ultimately show ?thesis
      using False by (simp add: Let_def min_def)
  qed
qed

lemma remove_nth_parts:
  assumes "j < length pool"
  shows "set (take j pool @ drop (Suc j) pool) \<subseteq> set pool"
    and "pool ! j \<in> set pool"
    and "distinct pool \<Longrightarrow> distinct (take j pool @ drop (Suc j) pool)"
    and "distinct pool \<Longrightarrow> pool ! j \<notin> set (take j pool @ drop (Suc j) pool)"
proof -
  have split: "pool = take j pool @ pool ! j # drop (Suc j) pool"
    using assms by (rule id_take_nth_drop)
  show "set (take j pool @ drop (Suc j) pool) \<subseteq> set pool"
    by (auto dest: in_set_takeD in_set_dropD)
  show "pool ! j \<in> set pool"
    using assms by simp
  assume d: "distinct pool"
  then have "distinct (take j pool @ pool ! j # drop (Suc j) pool)"
    using split by simp
  then show "distinct (take j pool @ drop (Suc j) pool)"
    and "pool ! j \<notin> set (take j pool @ drop (Suc j) pool)"
    by auto
qed

lemma sample_subset: "set (sample draws i pool k) \<subseteq> set pool"
proof (induction k arbitrary: i pool)
  case 0
  show ?case by simp
next
  case (Suc k)
  show ?case
  proof (cases "pool = []")
    case True
    then show ?thesis by simp
  next
    case False
    let ?j = "draws i mod length pool"
    from False have j: "?j < length pool" by simp
    have "set (sample draws (Suc i) (take ?j pool @ drop (Suc ?j) pool) k) \<subseteq> set pool"
      using Suc.IH remove_nth_parts(1) [OF j] by blast
    with False remove_nth_parts(2) [OF j] show ?thesis
      by (simp add: Let_def)
  qed
qed

lemma sample_distinct: "distinct pool \<Longrightarrow> distinct (sample draws i pool k)"
proof (induction k arbitrary: i pool)
  case 0
  show ?case by simp
next
  case (Suc k)
  show ?case
  proof (cases "pool = []")
    case True
    then show ?thesis by simp
  next
    case False
    let ?j = "draws i mod length pool"
    let ?rest = "take ?j pool @ drop (Suc ?j) pool"
    from False have j: "?j < length pool" by simp
    have "distinct (sample draws (Suc i) ?rest k)"
      using Suc.prems remove_nth_parts(3) [OF j] by (intro Suc.IH) simp
    moreover have "pool ! ?j \<notin> set (sample draws (Suc i) ?rest k)"
      using Suc.prems remove_nth_parts(4) [OF j] sample_subset [of draws "Suc i" ?rest k] by blast
    ultimately show ?thesis
      using False by (simp add: Let_def)
  qed
qed

subsection \<open>Buckets\<close>

lemma motion_bucket_cases:
  "motion_bucket m = ''low'' \<or> motion_bucket m = ''medium'' \<or> motion_bucket m = ''high''"
  by (auto simp add: motion_bucket_def)

lemma by_motion_partition:
  "length clips =
     length (by_motion clips ''low'') + length (by_motion clips ''medium'') +
     length (by_motion clips ''high'')"
proof (induction clips)
  case Nil
  show ?case by (simp add: by_motion_def)
next
  case (Cons c clips)
  then show ?case
    using motion_bucket_cases [of "motion_intensity c"] by (auto simp add: by_motion_def)
qed

lemma sample_bucket:
  "c \<in> set (sample draws i (by_motion clips key) k) \<Longrightarrow>
   motion_bucket (motion_intensity c) = key \<and> c \<in> set clips"
  using sample_subset [of draws i "by_motion clips key" k] by (auto simp add: by_motion_def)

lemma filter_bucket_same:
  "filter (\<lambda>c. motion_bucket (motion_intensity c) = key)
     (sample draws i (by_motion clips key) k) = sample draws i (by_motion clips key) k"
  by (rule filter_True) (simp add: sample_bucket)

lemma filter_bucket_other:
  "key' \<noteq> key \<Longrightarrow>
   filter (\<lambda>c. motion_bucket (motion_intensity c) = key')
     (sample draws i (by_motion clips key) k) = []"
  by (rule filter_False) (auto dest: sample_bucket)

subsection \<open>The sampler on a pool with full buckets\<close>

text \<open>When every bucket holds at least \<open>n div 3\<close> clips and 3 divides \<open>n\<close>, the
  three draws fill the sample and the uniform fill draws nothing.\<close>

lemma smart_sample_clips_full_buckets:
  assumes "n div 3 \<le> length (by_motion clips ''low'')"
    and "n div 3 \<le> length (by_motion clips ''medium'')"
    and "n div 3 \<le> length (by_motion clips ''high'')"
    and "n = 3 * (n div 3)"
  shows "smart_sample_clips draws clips n =
           sample draws 0 (by_motion clips ''low'') (n div 3) @
           sample draws (n div 3) (by_motion clips ''medium'') (n div 3) @
           sample draws (n div 3 + n div 3) (by_motion clips ''high'') (n div 3)"
proof -
  have "n - (n div 3 + (n div 3 + n div 3)) = 0"
    using assms(4) by simp
  then show ?thesis
    using assms(1-3) by (simp add: smart_sample_clips_def Let_def sample_length min_def)
qed

lemma distinct_map_subset:
  assumes "distinct (map f xs)" and "set ys \<subseteq> set xs" and "distinct ys"
  shows "distinct (map f ys)"
proof -
  from assms(1) have "inj_on f (set xs)" by (simp add: distinct_map)
  then have "inj_on f (set ys)" using assms(2) by (rule inj_on_subset)
  with assms(3) show ?thesis by (simp add: distinct_map)
qed

lemma bucket_count_map:
  "filter (\<lambda>x. motion_bucket (cc_motion x) = key) (map to_selector_context cs) =
   map to_selector_context (filter (\<lambda>c. motion_bucket (motion_intensity c) = key) cs)"
  by (induction cs) (simp_all add: to_selector_context_def)

text \<open>
  Claim C9. The pool's filenames are pairwise different and its low, medium and high
  buckets hold 40, 30 and 30 clips (so it holds 100; an unrecognised intensity counts as
  medium). For every stream of draws the sampler, asked for 30, returns exactly 30
  items, no two the same (not even by filename), and exactly 10 of each bucket, which
  is the per-bucket share \<open>30 div 3\<close>; nothing is left for the uniform fill.
\<close>

theorem smart_sample_30_of_100:
  assumes "distinct (map filename clips)"
    and "length (by_motion clips ''low'') = 40"
    and "length (by_motion clips ''medium'') = 30"
    and "length (by_motion clips ''high'') = 30"
  shows "length clips = 100 \<and>
         length (smart_sample draws clips 30) = 30 \<and>
         distinct (smart_sample draws clips 30) \<and>
         distinct (map cc_filename (smart_sample draws clips 30)) \<and>
         length (filter (\<lambda>x. motion_bucket (cc_motion x) = ''low'') (smart_sample draws clips 30)) = 10 \<and>
         length (filter (\<lambda>x. motion_bucket (cc_motion x) = ''medium'') (smart_sample draws clips 30)) = 10 \<and>
         length (filter (\<lambda>x. motion_bucket (cc_motion x) = ''high'') (smart_sample draws clips 30)) = 10"
proof -
  let ?r1 = "sample draws 0 (by_motion clips ''low'') 10"
  let ?r2 = "sample draws 10 (by_motion clips ''medium'') 10"
  let ?r3 = "sample draws 20 (by_motion clips ''high'') 10"
  have total: "length clips = 100"
    using by_motion_partition [of clips] assms(2-4) by simp
  have picked: "smart_sample_clips draws clips 30 = ?r1 @ ?r2 @ ?r3"
    using smart_sample_clips_full_buckets [of 30 clips draws] assms(2-4) by simp
  have len: "length ?r1 = 10" "length ?r2 = 10" "length ?r3 = 10"
    using assms(2-4) by (simp_all add: sample_length)
  have dc: "distinct clips"
    using assms(1) by (simp add: distinct_map)
  then have d1: "distinct ?r1" and d2: "distinct ?r2" and d3: "distinct ?r3"
    by (simp_all add: sample_distinct by_motion_def)
  have disj: "set ?r1 \<inter> set ?r2 = {}" "set ?r1 \<inter> set ?r3 = {}" "set ?r2 \<inter> set ?r3 = {}"
    by (auto dest!: sample_bucket)
  have dist: "distinct (smart_sample_clips draws clips 30)"
    using picked d1 d2 d3 disj by auto
  have sub: "set (smart_sample_clips draws clips 30) \<subseteq> set clips"
    using picked by (auto dest!: sample_bucket)
  have names: "distinct (map filename (smart_sample_clips draws clips 30))"
    using assms(1) sub dist by (rule distinct_map_subset)
  have cc: "map cc_filename (smart_sample draws clips 30) =
            map filename (smart_sample_clips draws clips 30)"
    by (simp add: smart_sample_def to_selector_context_def)
  have dn: "distinct (map cc_filename (smart_sample draws clips 30))"
    using names cc by simp
  then have di: "distinct (smart_sample draws clips 30)"
    by (simp add: distinct_map)
  have low: "filter (\<lambda>c. motion_bucket (motion_intensity c) = ''low'')
               (smart_sample_clips draws clips 30) = ?r1"
    using picked by (simp add: filter_bucket_same filter_bucket_other)
  have medium: "filter (\<lambda>c. motion_bucket (motion_intensity c) = ''medium'')
               (smart_sample_clips draws clips 30) = ?r2"
    using picked by (simp add: filter_bucket_same filter_bucket_other)
  have high: "filter (\<lambda>c. motion_bucket (motion_intensity c) = ''high'')
               (smart_sample_clips draws clips 30) = ?r3"
    using picked by (simp add: filter_bucket_same filter_bucket_other)
  have n: "length (smart_sample draws clips 30) = 30"
    using picked len by (simp add: smart_sample_def)
  from total n di dn low medium high len show ?thesis
    by (simp add: smart_sample_def bucket_count_map)
qed

lemma motion_bucket_fixtures:
  "motion_bucket ''low'' = ''low''" "motion_bucket ''Medium'' = ''medium''"
  "motion_bucket ''HIGH'' = ''high''"
  by code_simp+

lemma by_motion_clip_named:
  "by_motion (map (\<lambda>i. clip_named (f i) m) ns) key =
     (if motion_bucket m = key then map (\<lambda>i. clip_named (f i) m) ns else [])"
  by (induction ns) (simp_all add: by_motion_def clip_named_def)

lemma by_motion_append: "by_motion (xs @ ys) key = by_motion xs key @ by_motion ys key"
  by (simp add: by_motion_def)

lemma sampler_pool_buckets:
  "length (by_motion sampler_pool ''low'') = 40"
  "length (by_motion sampler_pool ''medium'') = 30"
  "length (by_motion sampler_pool ''high'') = 30"
  by (simp_all add: sampler_pool_def by_motion_append by_motion_clip_named
      motion_bucket_fixtures)

lemma sampler_pool_filenames: "distinct (map filename sampler_pool)"
proof -
  have names: "map filename (map (\<lambda>i. clip_named (f i) m) ns) = map f ns" for f m ns
    by (simp add: clip_named_def comp_def)
  have inj: "distinct (map (\<lambda>i. c # replicate i c) [0..<n])" for c :: char and n
    by (simp add: distinct_map inj_on_def)
  show ?thesis
    unfolding sampler_pool_def map_append names distinct_append
    by (auto simp add: inj)
qed

theorem smart_sample_30_of_100_witness:
  "distinct (map filename sampler_pool) \<and>
   length (by_motion sampler_pool ''low'') = 40 \<and>
   length (by_motion sampler_pool ''medium'') = 30 \<and>
   length (by_motion sampler_pool ''high'') = 30 \<and>
   length sampler_pool = 100 \<and>
   length (smart_sample (\<lambda>i. 7 * i + 3) sampler_pool 30) = 30 \<and>
   distinct (smart_sample (\<lambda>i. 7 * i + 3) sampler_pool 30) \<and>
   distinct (map cc_filename (smart_sample (\<lambda>i. 7 * i + 3) sampler_pool 30)) \<and>
   length (filter (\<lambda>x. motion_bucket (cc_motion x) = ''low'')
     (smart_sample (\<lambda>i. 7 * i + 3) sampler_pool 30)) = 10 \<and>
   length (filter (\<lambda>x. motion_bucket (cc_motion x) = ''medium'')
     (smart_sample (\<lambda>i. 7 * i + 3) sampler_pool 30)) = 10 \<and>
   length (filter (\<lambda>x. motion_bucket (cc_motion x) = ''high'')
     (smart_sample (\<lambda>i. 7 * i + 3) sampler_pool 30)) = 10"
  using smart_sample_30_of_100 [of sampler_pool "\<lambda>i. 7 * i + 3",
      OF sampler_pool_filenames sampler_pool_buckets]
    sampler_pool_filenames sampler_pool_buckets
  by simp

section \<open>The orchestrator\<close>

subsection \<open>Facts about the pieces\<close>



lemma validate_selections_known:
  "sel_filename sel = Some fn \<Longrightarrow> get_clip m fn = Some c \<Longrightarrow>
   validate_selections m (sel # sels) valid lg = validate_selections m sels (valid @ [sel]) lg"
  by simp

lemma validate_selections_unknown:
  "sel_filename sel = Some fn \<Longrightarrow> get_clip m fn = None \<Longrightarrow>
   validate_selections m (sel # sels) valid lg =
     validate_selections m sels valid (lg @ [Warning_nonexistent_clip fn])"
  by simp

lemma dropped_candidates_append:
  "dropped_candidates (xs @ ys) = dropped_candidates xs @ dropped_candidates ys"
  by (induction xs rule: dropped_candidates.induct) simp_all



text \<open>Enqueueing appends acknowledged filenames to the queue, so a queue that shares
  nothing with pairwise different selections stays free of duplicates.\<close>

lemma enqueue_selections_distinct:
  "enqueue_selections env sels s = Inr s' \<Longrightarrow>
   distinct (queued_filenames s @ List.map_filter sel_filename sels) \<Longrightarrow>
   distinct (queued_filenames s')"
proof (induction sels arbitrary: s)
  case Nil
  then show ?case by (simp add: List.map_filter_simps)
next
  case (Cons sel sels)
  show ?case
  proof (cases "sel_filename sel")
    case None
    with Cons.prems show ?thesis by simp
  next
    case (Some fn)
    let ?s1 = "s \<lparr> enqueue_calls := enqueue_calls s @ [fn] \<rparr>"
    from Cons.prems(2) Some
    have d: "distinct (queued_filenames s @ fn # List.map_filter sel_filename sels)"
      by simp
    show ?thesis
    proof (cases "loadfile_ok env (enqueue_calls s) fn")
      case True
      let ?s2 = "?s1 \<lparr> queued_filenames := queued_filenames ?s1 @ [fn],
        printed := printed ?s1 @
          [Queued fn, Reason (case reasoning sel of None \<Rightarrow> ''N/A'' | Some r \<Rightarrow> r)] \<rparr>"
      from Cons.prems(1) Some True have "enqueue_selections env sels ?s2 = Inr s'"
        by (simp add: Let_def)
      moreover from d have "distinct (queued_filenames ?s2 @ List.map_filter sel_filename sels)"
        by simp
      ultimately show ?thesis by (rule Cons.IH)
    next
      case False
      let ?s2 = "?s1 \<lparr> printed := printed ?s1 @ [Failed_to_queue fn] \<rparr>"
      from Cons.prems(1) Some False have "enqueue_selections env sels ?s2 = Inr s'"
        by (simp add: Let_def)
      moreover from d have "distinct (queued_filenames ?s2 @ List.map_filter sel_filename sels)"
        by simp
      ultimately show ?thesis by (rule Cons.IH)
    qed
  qed
qed


lemma mark_current_as_played_removes:
  "distinct (queued_filenames s) \<Longrightarrow> fn \<notin> set (queued_filenames (mark_current_as_played fn now s))"
  by (simp add: mark_current_as_played_def)

subsection \<open>Reconciliation\<close>












subsection \<open>Duplicates in the queue\<close>

text \<open>
  Claim C7, evaluated at a fresh orchestrator whose manifest holds \<open>a.mp4\<close>, with a
  selection response that lists it twice and an engine that acknowledges both loads.
  The fill cycle builds the exclusion list of played and queued filenames for the
  candidates it shows, but the response is validated against the manifest only: the
  queue ends as \<open>[a.mp4, a.mp4]\<close>, and when the engine reports \<open>a.mp4\<close> as playing,
  \<open>list.remove\<close> takes out one of the two.
\<close>

theorem fill_buffer_queues_duplicate:
  "map_sum id queued_filenames
     (fill_buffer (willing_env (answer [pick ''a.mp4'', pick ''a.mp4'']))
        (Orchestrator default_config [clip_named ''a.mp4'' ''low''])) =
     Inr [''a.mp4'', ''a.mp4''] \<and>
   map_sum id (\<lambda>s. queued_filenames (mark_current_as_played ''a.mp4'' ''12:00'' s))
     (fill_buffer (willing_env (answer [pick ''a.mp4'', pick ''a.mp4'']))
        (Orchestrator default_config [clip_named ''a.mp4'' ''low''])) =
     Inr [''a.mp4'']"
  by (simp add: fill_buffer_def select_def available_clips_def exclusion_list_def
      Orchestrator_def NarrativeState_def default_config_def willing_env_def answer_def
      pick_def clip_named_def get_clip_def mark_current_as_played_def Let_def)

text \<open>
  As long as the collaborator answers with pairwise different filenames that are not
  yet queued, the queue holds no filename twice after the cycle, and reconciliation of
  a filename then leaves no occurrence of it in the queue.
\<close>

lemma queued_filenames_stay_distinct:
  assumes "fill_buffer env s = Inr s'"
    and "distinct (queued_filenames s @ selected_filenames env s)"
  shows "distinct (queued_filenames s') \<and>
         fn \<notin> set (queued_filenames (mark_current_as_played fn now s'))"
proof -
  obtain r lg where sel: "select (manifest s) (selector_state s) (llm env) (rnd env)
      (clips_per_selection (config s)) (exclusion_list s) (printed s) = (r, lg)"
    by (cases "select (manifest s) (selector_state s) (llm env) (rnd env)
      (clips_per_selection (config s)) (exclusion_list s) (printed s)")
  from assms(1) sel obtain result where r: "r = Inr result"
    by (cases r) (auto simp add: fill_buffer_def)
  from assms(2) sel r
  have d: "distinct (queued_filenames s @ List.map_filter sel_filename (selections result))"
    by (simp add: selected_filenames_def)
  have "distinct (queued_filenames s')"
  proof (cases "result_error result = None \<and> selections result \<noteq> []")
    case False
    with assms(1) sel r have "queued_filenames s' = queued_filenames s"
      by (auto simp add: fill_buffer_def split: option.splits)
    with d show ?thesis by simp
  next
    case True
    with assms(1) sel r obtain s1 where
      e: "enqueue_selections env (selections result) (s \<lparr> printed := lg \<rparr>) = Inr s1"
      and q: "queued_filenames s' = queued_filenames s1"
      by (auto simp add: fill_buffer_def split: sum.splits)
    have "distinct (queued_filenames s1)"
      using enqueue_selections_distinct [OF e] d by simp
    with q show ?thesis by simp
  qed
  then show ?thesis by (simp add: mark_current_as_played_removes)
qed

lemma queued_filenames_stay_distinct_example:
  "map_sum id (\<lambda>s. distinct (queued_filenames s))
     (fill_buffer (willing_env (answer [pick ''a.mp4'', pick ''b.mp4'']))
        (Orchestrator default_config [clip_named ''a.mp4'' ''low'', clip_named ''b.mp4'' ''high''])) =
     Inr True"
proof -
  let ?env = "willing_env (answer [pick ''a.mp4'', pick ''b.mp4''])"
  let ?s = "Orchestrator default_config [clip_named ''a.mp4'' ''low'', clip_named ''b.mp4'' ''high'']"
  obtain s' where f: "fill_buffer ?env ?s = Inr s'"
    by (simp add: fill_buffer_def select_def available_clips_def exclusion_list_def
        Orchestrator_def NarrativeState_def default_config_def willing_env_def answer_def
        pick_def clip_named_def get_clip_def Let_def)
  have "distinct (queued_filenames ?s @ selected_filenames ?env ?s)"
    by (simp add: selected_filenames_def select_def available_clips_def exclusion_list_def
        Orchestrator_def NarrativeState_def default_config_def willing_env_def answer_def
        pick_def clip_named_def get_clip_def Let_def)
  from queued_filenames_stay_distinct [OF f this] f show ?thesis by simp
qed

subsection \<open>The queued count of the context snapshot\<close>

text \<open>
  Claim C8, evaluated after one fill cycle on a fresh orchestrator that queued one
  clip: \<open>queued_filenames\<close> holds it, and the snapshot the next \<open>select\<close> hands to
  the collaborator says \<open>queued_count = 0\<close>. The snapshot counts
  \<open>NarrativeState.current_queue\<close>, which the orchestrator never writes
  (\<open>fill_buffer_frame\<close>: a fill cycle leaves the narrative state as it was).
\<close>

theorem queued_count_ignores_queue:
  "map_sum id (\<lambda>s. (queued_filenames s, queued_count (to_context (selector_state s))))
     (fill_buffer (willing_env (answer [pick ''a.mp4'']))
        (Orchestrator default_config [clip_named ''a.mp4'' ''low''])) =
     Inr ([''a.mp4''], 0)"
  by (simp add: fill_buffer_def select_def available_clips_def exclusion_list_def
      Orchestrator_def NarrativeState_def default_config_def willing_env_def answer_def
      pick_def clip_named_def get_clip_def to_context_def Let_def)

subsection \<open>A selection response with an unknown identifier\<close>

lemma dropped_candidates_narrative_lines: "dropped_candidates (narrative_lines result) = []"
  by (simp add: narrative_lines_def split: option.splits)

lemma select_one_valid_one_unknown:
  assumes "available_clips m ex \<noteq> []"
    and "llm' (to_context st) (available_context rnd' (available_clips m ex)) n = Json result"
    and "selections result = [v, u] \<or> selections result = [u, v]"
    and "sel_filename v = Some a" and "get_clip m a = Some c"
    and "sel_filename u = Some b" and "get_clip m b = None"
  shows "select m st llm' rnd' n ex lg =
           (Inr (result \<lparr> selections := [v] \<rparr>), lg @ [Warning_nonexistent_clip b])"
  using assms by (auto simp add: select_def Let_def)

text \<open>
  Claim C10. The collaborator is called and its response lists one identifier of the
  manifest (\<open>a\<close>) and one unknown to it (\<open>b\<close>), in either order. The fill cycle
  returns normally, calls \<open>add_to_playlist\<close> once, for \<open>a\<close>, prints one warning,
  for \<open>b\<close>, and appends to the queue \<open>a\<close> alone (when the engine acknowledges it):
  \<open>b\<close> is neither among the calls nor among the filenames queued by the cycle.
\<close>

theorem fill_buffer_one_valid_one_unknown:
  assumes "available_clips (manifest s) (exclusion_list s) \<noteq> []"
    and "collaborator_reply env s = Json result"
    and "result_error result = None"
    and "selections result = [v, u] \<or> selections result = [u, v]"
    and "sel_filename v = Some a" and "get_clip (manifest s) a = Some c"
    and "sel_filename u = Some b" and "get_clip (manifest s) b = None"
  shows "\<exists>s'. fill_buffer env s = Inr s' \<and>
           enqueue_calls s' = enqueue_calls s @ [a] \<and>
           dropped_candidates (printed s') = dropped_candidates (printed s) @ [b] \<and>
           queued_filenames s' =
             queued_filenames s @ (if loadfile_ok env (enqueue_calls s) a then [a] else []) \<and>
           b \<notin> set (drop (length (enqueue_calls s)) (enqueue_calls s')) \<and>
           b \<notin> set (drop (length (queued_filenames s)) (queued_filenames s')) \<and>
           selections_made s' = selections_made s + 1"
proof -
  have sel: "select (manifest s) (selector_state s) (llm env) (rnd env)
               (clips_per_selection (config s)) (exclusion_list s) (printed s) =
             (Inr (result \<lparr> selections := [v] \<rparr>), printed s @ [Warning_nonexistent_clip b])"
    using assms(1) assms(2) [unfolded collaborator_reply_def] assms(4-8)
    by (rule select_one_valid_one_unknown)
  have ne: "b \<noteq> a"
    using assms(6,8) by auto
  show ?thesis
  proof (cases "loadfile_ok env (enqueue_calls s) a")
    case True
    with sel assms(3,5) ne show ?thesis
      by (simp add: fill_buffer_def Let_def dropped_candidates_append
          dropped_candidates_narrative_lines)
  next
    case False
    with sel assms(3,5) ne show ?thesis
      by (simp add: fill_buffer_def Let_def dropped_candidates_append
          dropped_candidates_narrative_lines)
  qed
qed

theorem fill_buffer_one_valid_one_unknown_witness:
  "map_sum id (\<lambda>s. (enqueue_calls s, dropped_candidates (printed s), queued_filenames s))
     (fill_buffer (willing_env (answer [pick ''ghost.mp4'', pick ''a.mp4'']))
        (Orchestrator default_config [clip_named ''a.mp4'' ''low''])) =
     Inr ([''a.mp4''], [''ghost.mp4''], [''a.mp4''])"
  using fill_buffer_one_valid_one_unknown
    [of "Orchestrator default_config [clip_named ''a.mp4'' ''low'']"
      "willing_env (answer [pick ''ghost.mp4'', pick ''a.mp4''])"
      "\<lparr> result_error = None, selections = [pick ''ghost.mp4'', pick ''a.mp4''],
         narrative_note = None, suggested_direction = None \<rparr>"
      "pick ''a.mp4''" "pick ''ghost.mp4''" "''a.mp4''" "clip_named ''a.mp4'' ''low''"
      "''ghost.mp4''"]
  by (auto simp add: collaborator_reply_def available_clips_def exclusion_list_def
      Orchestrator_def NarrativeState_def willing_env_def answer_def pick_def clip_named_def
      get_clip_def)

subsection \<open>Starting\<close>





end
